theory Spec2Isabelle
  imports Main "HOL-Library.Sublist"
begin

section \<open>JavaScript strings and arrays\<close>

text \<open>
  The bot is one TypeScript module, \<^verbatim>\<open>src/index.ts\<close>, with three webhook handlers.
  A JavaScript string is a sequence of UTF-16 code units. The model uses \<open>string\<close>, whose
  characters are 8 bits wide, so it covers the strings whose code units are below 256
  (ASCII and Latin-1); on these the functions below agree with the JavaScript built-ins.
  \<open>length\<close> counts code units, as \<^verbatim>\<open>String.prototype.slice\<close> does.
\<close>

definition isWhiteSpace :: "char \<Rightarrow> bool" where
  \<comment> \<open>WhiteSpace and LineTerminator below 256: TAB, LF, VT, FF, CR, SP, NBSP.
     Used by \<^verbatim>\<open>trim\<close> and by the regular expression class \<^verbatim>\<open>\s\<close>.\<close>
  "isWhiteSpace c \<longleftrightarrow>
     c \<in> set [CHR 0x09, CHR 0x0A, CHR 0x0B, CHR 0x0C, CHR 0x0D, CHR 0x20, CHR 0xA0]"

definition trim :: "string \<Rightarrow> string" where
  "trim s = rev (dropWhile isWhiteSpace (rev (dropWhile isWhiteSpace s)))"

definition upperCase :: string where
  \<comment> \<open>A-Z, and the Latin-1 capitals 0xC0-0xDE without the multiplication sign 0xD7.\<close>
  "upperCase =
     ''ABCDEFGHIJKLMNOPQRSTUVWXYZ''
     @ [CHR 0xC0, CHR 0xC1, CHR 0xC2, CHR 0xC3, CHR 0xC4, CHR 0xC5, CHR 0xC6, CHR 0xC7, CHR 0xC8, CHR 0xC9,
        CHR 0xCA, CHR 0xCB, CHR 0xCC, CHR 0xCD, CHR 0xCE, CHR 0xCF, CHR 0xD0, CHR 0xD1, CHR 0xD2, CHR 0xD3,
        CHR 0xD4, CHR 0xD5, CHR 0xD6, CHR 0xD8, CHR 0xD9, CHR 0xDA, CHR 0xDB, CHR 0xDC, CHR 0xDD, CHR 0xDE]"

definition lowerCase :: string where
  \<comment> \<open>The lower-case letter of each capital, in the same order (code unit plus 32).\<close>
  "lowerCase =
     ''abcdefghijklmnopqrstuvwxyz''
     @ [CHR 0xE0, CHR 0xE1, CHR 0xE2, CHR 0xE3, CHR 0xE4, CHR 0xE5, CHR 0xE6, CHR 0xE7, CHR 0xE8, CHR 0xE9,
        CHR 0xEA, CHR 0xEB, CHR 0xEC, CHR 0xED, CHR 0xEE, CHR 0xEF, CHR 0xF0, CHR 0xF1, CHR 0xF2, CHR 0xF3,
        CHR 0xF4, CHR 0xF5, CHR 0xF6, CHR 0xF8, CHR 0xF9, CHR 0xFA, CHR 0xFB, CHR 0xFC, CHR 0xFD, CHR 0xFE]"

definition lowerChar :: "char \<Rightarrow> char" where
  "lowerChar c = (case map_of (zip upperCase lowerCase) c of Some d \<Rightarrow> d | None \<Rightarrow> c)"

definition toLowerCase :: "string \<Rightarrow> string" where
  "toLowerCase s = map lowerChar s"

text \<open>\<^verbatim>\<open>s.split(c)\<close> for a one-character separator: the empty string gives one empty piece.\<close>

fun splitOn :: "char \<Rightarrow> string \<Rightarrow> string list" where
  "splitOn c [] = [[]]"
| "splitOn c (x # xs) =
     (if x = c then [] # splitOn c xs
      else (case splitOn c xs of
              [] \<Rightarrow> [[x]]
            | t # ts \<Rightarrow> (x # t) # ts))"

text \<open>
  \<^verbatim>\<open>s.split(/\s+/)\<close>: the piece before the next maximal run of white space, then the
  pieces of what follows the run. A string without white space is one piece, also when
  it is empty.
\<close>

function splitWs :: "string \<Rightarrow> string list" where
  "splitWs s =
     (if dropWhile (\<lambda>c. \<not> isWhiteSpace c) s = []
      then [takeWhile (\<lambda>c. \<not> isWhiteSpace c) s]
      else takeWhile (\<lambda>c. \<not> isWhiteSpace c) s
             # splitWs (dropWhile isWhiteSpace (dropWhile (\<lambda>c. \<not> isWhiteSpace c) s)))"
  by pat_completeness auto

text \<open>\<^verbatim>\<open>parts.join(sep)\<close>.\<close>

fun join :: "string \<Rightarrow> string list \<Rightarrow> string" where
  "join sep [] = []"
| "join sep [x] = x"
| "join sep (x # y # ys) = x @ sep @ join sep (y # ys)"

text \<open>\<^verbatim>\<open>s.includes(sub)\<close> and \<^verbatim>\<open>s.replace(pat, rep)\<close> with a string pattern, which
  replaces the first occurrence only. \<^verbatim>\<open>s.startsWith(p)\<close> is \<open>prefix p s\<close>.\<close>

fun includesStr :: "string \<Rightarrow> string \<Rightarrow> bool" where
  "includesStr [] sub = (sub = [])"
| "includesStr (x # xs) sub = (prefix sub (x # xs) \<or> includesStr xs sub)"

fun replaceFirst :: "string \<Rightarrow> string \<Rightarrow> string \<Rightarrow> string" where
  "replaceFirst pat rep [] = (if pat = [] then rep else [])"
| "replaceFirst pat rep (x # xs) =
     (if prefix pat (x # xs) then rep @ drop (length pat) (x # xs)
      else x # replaceFirst pat rep xs)"

text \<open>\<^verbatim>\<open>a.indexOf(v)\<close>, which is -1 when \<open>v\<close> does not occur, and the filter
  \<^verbatim>\<open>a.filter((v, i, a) => a.indexOf(v) === i)\<close> of the reviewer list.\<close>

fun indexOfFrom :: "nat \<Rightarrow> 'a list \<Rightarrow> 'a \<Rightarrow> int" where
  "indexOfFrom i [] v = - 1"
| "indexOfFrom i (x # xs) v = (if x = v then int i else indexOfFrom (Suc i) xs v)"

definition indexOf :: "'a list \<Rightarrow> 'a \<Rightarrow> int" where
  "indexOf a v = indexOfFrom 0 a v"

definition filterFirstIndex :: "'a list \<Rightarrow> 'a list" where
  "filterFirstIndex a = map snd (filter (\<lambda>(i, v). indexOf a v = int i) (enumerate 0 a))"

termination splitWs
proof (relation "measure length")
  show "wf (measure length)" by simp
next
  fix s :: string
  let ?r = "dropWhile (\<lambda>c. \<not> isWhiteSpace c) s"
  assume ne: "?r \<noteq> []"
  then obtain x xs where r: "?r = x # xs" by (cases ?r) auto
  have "isWhiteSpace x" using hd_dropWhile [OF ne] r by simp
  then have "dropWhile isWhiteSpace ?r = dropWhile isWhiteSpace xs" using r by simp
  moreover have "length (dropWhile isWhiteSpace xs) \<le> length xs"
    by (rule length_dropWhile_le)
  moreover have "length ?r \<le> length s" by (rule length_dropWhile_le)
  ultimately show "(dropWhile isWhiteSpace ?r, s) \<in> measure length"
    using r by simp
qed

declare splitWs.simps [simp del]


section \<open>Errors, collaborator calls and handler state\<close>

text \<open>
  A thrown value carries the two fields the handlers read: \<^verbatim>\<open>err.status\<close> (absent on
  a \<^verbatim>\<open>TypeError\<close>) and \<^verbatim>\<open>err.message\<close>.
\<close>

datatype error = Error (status: "nat option") (message: string)

definition TypeError :: "string \<Rightarrow> error" where
  "TypeError msg = Error None msg"

text \<open>
  A value of the \<^verbatim>\<open>reviewers\<close> array. The table \<^verbatim>\<open>labelToReviewers\<close> is an object
  literal, so a lookup also finds what the object inherits from \<^verbatim>\<open>Object.prototype\<close>;
  such a member is not an array and \<^verbatim>\<open>flatMap\<close> keeps it as one element.
\<close>

datatype reviewer = Login string | Inherited string

record changed_file =
  filename :: string
  patch :: "string option"

record file_content = changed_file +
  content :: string

text \<open>Every request sent to the hosting service or to the model service, with its arguments.\<close>

datatype call =
    CompletionsCreate string nat nat
  | CreateComment string string nat string
  | ListFiles string string nat
  | AddLabels string string nat "string list"
  | CreateLabel string string string string
  | RequestReviewers string string nat "reviewer list"
  | GetCommit string string string
  | GetContent string string string string
  | ChecksCreate string string string nat string

datatype log_entry =
    LogCommentedSummary nat
  | LogHasDescription nat
  | WarnNotCollaborators
  | LogNoFileChanges nat string
  | LogPostedReview nat string
  | ErrorReviewing string nat error
  | LogSlashSummarize nat
  | LogSlashReview nat
  | LogSlashLabels "string list" nat
  | LogSlashReviewers "string list" nat
  | ErrorSlash error

text \<open>
  The collaborators are parameters of the model: each operation maps its arguments and the
  state of the outside world to a result or an error and a new world. In
  \<open>completions_create\<close> the arguments are the prompt, \<^verbatim>\<open>max_tokens\<close> and the temperature
  in tenths, and the result is the text of each returned choice. \<open>pulls_listFiles\<close>
  returns the file names, \<open>repos_getCommit\<close> the \<^verbatim>\<open>files\<close> field of the commit (which
  may be absent), \<open>repos_getContent\<close> the decoded \<^verbatim>\<open>content\<close> field of the response
  (absent when the path is not a file). \<open>checks_create\<close> takes owner, repository, head
  SHA, the pull request number of the title, and the summary text.
\<close>

record 'w collaborators =
  completions_create :: "string \<Rightarrow> nat \<Rightarrow> nat \<Rightarrow> 'w \<Rightarrow> (error + string list) \<times> 'w"
  issues_createComment :: "string \<Rightarrow> string \<Rightarrow> nat \<Rightarrow> string \<Rightarrow> 'w \<Rightarrow> (error + unit) \<times> 'w"
  pulls_listFiles :: "string \<Rightarrow> string \<Rightarrow> nat \<Rightarrow> 'w \<Rightarrow> (error + string list) \<times> 'w"
  issues_addLabels :: "string \<Rightarrow> string \<Rightarrow> nat \<Rightarrow> string list \<Rightarrow> 'w \<Rightarrow> (error + unit) \<times> 'w"
  issues_createLabel :: "string \<Rightarrow> string \<Rightarrow> string \<Rightarrow> string \<Rightarrow> 'w \<Rightarrow> (error + unit) \<times> 'w"
  pulls_requestReviewers ::
    "string \<Rightarrow> string \<Rightarrow> nat \<Rightarrow> reviewer list \<Rightarrow> 'w \<Rightarrow> (error + unit) \<times> 'w"
  repos_getCommit ::
    "string \<Rightarrow> string \<Rightarrow> string \<Rightarrow> 'w \<Rightarrow> (error + changed_file list option) \<times> 'w"
  repos_getContent ::
    "string \<Rightarrow> string \<Rightarrow> string \<Rightarrow> string \<Rightarrow> 'w \<Rightarrow> (error + string option) \<times> 'w"
  checks_create :: "string \<Rightarrow> string \<Rightarrow> string \<Rightarrow> nat \<Rightarrow> string \<Rightarrow> 'w \<Rightarrow> (error + unit) \<times> 'w"

record 'w state =
  world :: 'w
  trace :: "call list"
  logs :: "log_entry list"

type_synonym ('w, 'a) prog = "'w state \<Rightarrow> (error + 'a) \<times> 'w state"

definition ret :: "'a \<Rightarrow> ('w, 'a) prog" where
  "ret x s = (Inr x, s)"

definition throw :: "error \<Rightarrow> ('w, 'a) prog" where
  "throw e s = (Inl e, s)"

definition bnd :: "('w, 'a) prog \<Rightarrow> ('a \<Rightarrow> ('w, 'b) prog) \<Rightarrow> ('w, 'b) prog" where
  "bnd m f s = (case m s of (Inl e, s') \<Rightarrow> (Inl e, s') | (Inr x, s') \<Rightarrow> f x s')"

definition tryCatch :: "('w, 'a) prog \<Rightarrow> (error \<Rightarrow> ('w, 'a) prog) \<Rightarrow> ('w, 'a) prog" where
  "tryCatch m h s = (case m s of (Inl e, s') \<Rightarrow> h e s' | (Inr x, s') \<Rightarrow> (Inr x, s'))"

definition liftE :: "error + 'a \<Rightarrow> ('w, 'a) prog" where
  "liftE r s = (r, s)"

definition perform :: "call \<Rightarrow> ('w \<Rightarrow> (error + 'a) \<times> 'w) \<Rightarrow> ('w, 'a) prog" where
  \<comment> \<open>An awaited request: it is recorded whether it succeeds or fails.\<close>
  "perform c f s =
     (case f (world s) of (r, w') \<Rightarrow> (r, s\<lparr>world := w', trace := trace s @ [c]\<rparr>))"

definition console :: "log_entry \<Rightarrow> ('w, unit) prog" where
  "console l s = (Inr (), s\<lparr>logs := logs s @ [l]\<rparr>)"

definition completionsCreate ::
    "'w collaborators \<Rightarrow> string \<Rightarrow> nat \<Rightarrow> nat \<Rightarrow> ('w, string list) prog" where
  "completionsCreate C prompt max_tokens temperature =
     perform (CompletionsCreate prompt max_tokens temperature)
       (completions_create C prompt max_tokens temperature)"

definition createComment ::
    "'w collaborators \<Rightarrow> string \<Rightarrow> string \<Rightarrow> nat \<Rightarrow> string \<Rightarrow> ('w, unit) prog" where
  "createComment C ow rp n txt =
     perform (CreateComment ow rp n txt) (issues_createComment C ow rp n txt)"

definition listFiles :: "'w collaborators \<Rightarrow> string \<Rightarrow> string \<Rightarrow> nat \<Rightarrow> ('w, string list) prog" where
  "listFiles C ow rp n = perform (ListFiles ow rp n) (pulls_listFiles C ow rp n)"

definition addLabels ::
    "'w collaborators \<Rightarrow> string \<Rightarrow> string \<Rightarrow> nat \<Rightarrow> string list \<Rightarrow> ('w, unit) prog" where
  "addLabels C ow rp n ls = perform (AddLabels ow rp n ls) (issues_addLabels C ow rp n ls)"

definition createLabel ::
    "'w collaborators \<Rightarrow> string \<Rightarrow> string \<Rightarrow> string \<Rightarrow> string \<Rightarrow> ('w, unit) prog" where
  "createLabel C ow rp nm color =
     perform (CreateLabel ow rp nm color) (issues_createLabel C ow rp nm color)"

definition requestReviewers ::
    "'w collaborators \<Rightarrow> string \<Rightarrow> string \<Rightarrow> nat \<Rightarrow> reviewer list \<Rightarrow> ('w, unit) prog" where
  "requestReviewers C ow rp n rs =
     perform (RequestReviewers ow rp n rs) (pulls_requestReviewers C ow rp n rs)"

definition getCommit ::
    "'w collaborators \<Rightarrow> string \<Rightarrow> string \<Rightarrow> string \<Rightarrow> ('w, changed_file list option) prog" where
  "getCommit C ow rp ref = perform (GetCommit ow rp ref) (repos_getCommit C ow rp ref)"

definition getContent ::
    "'w collaborators \<Rightarrow> string \<Rightarrow> string \<Rightarrow> string \<Rightarrow> string \<Rightarrow> ('w, string option) prog" where
  "getContent C ow rp path ref =
     perform (GetContent ow rp path ref) (repos_getContent C ow rp path ref)"

definition checksCreate ::
    "'w collaborators \<Rightarrow> string \<Rightarrow> string \<Rightarrow> string \<Rightarrow> nat \<Rightarrow> string \<Rightarrow> ('w, unit) prog" where
  "checksCreate C ow rp sha n summary =
     perform (ChecksCreate ow rp sha n summary) (checks_create C ow rp sha n summary)"

definition firstChoiceText :: "string list \<Rightarrow> ('w, string) prog" where
  \<comment> \<open>\<^verbatim>\<open>choices[0].text\<close>: reading \<^verbatim>\<open>text\<close> of \<^verbatim>\<open>undefined\<close> throws.\<close>
  "firstChoiceText choices =
     (case choices of
        [] \<Rightarrow> throw (TypeError ''Cannot read properties of undefined'')
      | t # _ \<Rightarrow> ret t)"

text \<open>
  \<^verbatim>\<open>Promise.all(xs.map(async ...))\<close>: every task is started, so every request is sent;
  the result is the list of values, or an error when some task failed. The tasks run
  concurrently in the source; the model runs them in list order and reports the first
  failure in that order.
\<close>

fun settleAll :: "('w, 'a) prog list \<Rightarrow> 'w state \<Rightarrow> (error + 'a) list \<times> 'w state" where
  "settleAll [] s = ([], s)"
| "settleAll (p # ps) s =
     (case p s of (r, s') \<Rightarrow> (case settleAll ps s' of (rs, s'') \<Rightarrow> (r # rs, s'')))"

fun collect :: "(error + 'a) list \<Rightarrow> error + 'a list" where
  "collect [] = Inr []"
| "collect (Inl e # rs) = Inl e"
| "collect (Inr x # rs) = (case collect rs of Inl e \<Rightarrow> Inl e | Inr xs \<Rightarrow> Inr (x # xs))"

definition promiseAll :: "('w, 'a) prog list \<Rightarrow> ('w, 'a list) prog" where
  "promiseAll ps s = (case settleAll ps s of (rs, s') \<Rightarrow> (collect rs, s'))"


section \<open>The handler of \<^verbatim>\<open>pull_request.opened\<close>\<close>

record pull_request_payload =
  pr_body :: "string option"
  pr_number :: nat
  pr_title :: string
  pr_html_url :: string
  pr_head_sha :: string
  repo_owner :: string
  repo_name :: string

text \<open>
  The fixed texts of the source hold three characters above 255 (two emoji in the comment
  headings and an en dash in the review prompt). They are named here and written with
  ASCII stand-ins; no property below depends on them.
\<close>

definition memo :: string where
  "memo = '':memo:''"

definition robot :: string where
  "robot = '':robot:''"

definition endash :: string where
  "endash = ''-''"

definition summaryPrompt :: "string \<Rightarrow> string \<Rightarrow> string" where
  "summaryPrompt ttl url =
     ''Provide a concise summary for the following pull request:\<newline>\<newline>Title: '' @ ttl
       @ ''\<newline>\<newline>URL: '' @ url"

definition labelPrompt :: "string \<Rightarrow> string option \<Rightarrow> string \<Rightarrow> string" where
  "labelPrompt ttl bdy fileList =
     ''\<newline>You are a repo maintainer.  \<newline>Title: '' @ ttl
       @ ''  \<newline>Description: '' @ (case bdy of None \<Rightarrow> [] | Some b \<Rightarrow> b)
       @ ''  \<newline>Files changed:\<newline>'' @ fileList
       @ ''\<newline>\<newline>Suggest up to 3 labels (choose from: bug, enhancement, docs, test, refactor, frontend, backend).  \<newline>Output a comma-separated list only.\<newline>''"

definition suggestedLabels :: "string \<Rightarrow> string list" where
  \<comment> \<open>\<^verbatim>\<open>text.trim().toLowerCase().split(",").map((l) => l.trim()).filter(Boolean)\<close>\<close>
  "suggestedLabels txt =
     filter (\<lambda>l. l \<noteq> []) (map trim (splitOn CHR '','' (toLowerCase (trim txt))))"

text \<open>
  The loop over the suggested labels. The inner \<^verbatim>\<open>catch\<close> handles status 404 by
  creating the label and adding it again; it has no \<^verbatim>\<open>else\<close> branch, so an error with
  another status ends there and the loop goes on. An error thrown inside the \<^verbatim>\<open>catch\<close>
  block leaves the loop.
\<close>

fun applyLabels ::
    "'w collaborators \<Rightarrow> string \<Rightarrow> string \<Rightarrow> nat \<Rightarrow> string list \<Rightarrow> ('w, unit) prog" where
  "applyLabels C ow rp n [] = ret ()"
| "applyLabels C ow rp n (label # rest) =
     bnd (tryCatch (addLabels C ow rp n [label])
            (\<lambda>err. if status err = Some 404
                   then bnd (createLabel C ow rp label ''cfd3d7'')
                          (\<lambda>_. addLabels C ow rp n [label])
                   else ret ()))
       (\<lambda>_. applyLabels C ow rp n rest)"

definition labelToReviewers :: "(string \<times> string list) list" where
  "labelToReviewers =
     [(''frontend'', [''ui-team'']),
      (''backend'', [''api-team'']),
      (''bug'', [''qa-team'']),
      (''docs'', [''doc-reviewer'']),
      (''test'', [''qa-team'']),
      (''refactor'', [''arch-team'']),
      (''enhancement'', [''feature-owner''])]"

definition objectPrototypeKeys :: "string list" where
  \<comment> \<open>The property names every object literal inherits.\<close>
  "objectPrototypeKeys =
     [''constructor'', ''__proto__'', ''hasOwnProperty'', ''isPrototypeOf'',
      ''propertyIsEnumerable'', ''toLocaleString'', ''toString'', ''valueOf'',
      ''__defineGetter__'', ''__defineSetter__'', ''__lookupGetter__'', ''__lookupSetter__'']"

definition reviewersFor :: "string \<Rightarrow> reviewer list" where
  \<comment> \<open>What \<^verbatim>\<open>flatMap\<close> adds for one label: the elements of \<^verbatim>\<open>labelToReviewers[l] || []\<close>
     when that is an array, the value itself when it is an inherited member.\<close>
  "reviewersFor l =
     (case map_of labelToReviewers l of
        Some rs \<Rightarrow> map Login rs
      | None \<Rightarrow> if l \<in> set objectPrototypeKeys then [Inherited l] else [])"

definition reviewers :: "string list \<Rightarrow> reviewer list" where
  "reviewers labels = filterFirstIndex (concat (map reviewersFor labels))"

text \<open>
  The body of the \<^verbatim>\<open>try\<close> block, in two parts: \<open>summarizeAndLabel\<close> runs from the
  summary request to the end of the label loop and yields \<^verbatim>\<open>suggestedLabels\<close>;
  \<open>requestReviews\<close> is the reviewer step that follows it.
\<close>

definition summarizeAndLabel ::
    "'w collaborators \<Rightarrow> pull_request_payload \<Rightarrow> ('w, string list) prog" where
  "summarizeAndLabel C p =
     bnd (completionsCreate C (summaryPrompt (pr_title p) (pr_html_url p)) 150 7) (\<lambda>completion.
     bnd (firstChoiceText completion) (\<lambda>txt.
     bnd (createComment C (repo_owner p) (repo_name p) (pr_number p)
            (''### '' @ memo @ '' PR Summary\<newline>\<newline>'' @ trim txt)) (\<lambda>_.
     bnd (console (LogCommentedSummary (pr_number p))) (\<lambda>_.
     bnd (listFiles C (repo_owner p) (repo_name p) (pr_number p)) (\<lambda>files.
     bnd (completionsCreate C
            (labelPrompt (pr_title p) (pr_body p)
               (join ''\<newline>'' (map (\<lambda>f. ''- '' @ f) files))) 20 0) (\<lambda>labelsRes.
     bnd (firstChoiceText labelsRes) (\<lambda>ltxt.
     bnd (applyLabels C (repo_owner p) (repo_name p) (pr_number p) (suggestedLabels ltxt)) (\<lambda>_.
     ret (suggestedLabels ltxt)))))))))"

definition requestReviews ::
    "'w collaborators \<Rightarrow> pull_request_payload \<Rightarrow> string list \<Rightarrow> ('w, unit) prog" where
  "requestReviews C p labels =
     (if reviewers labels \<noteq> []
      then requestReviewers C (repo_owner p) (repo_name p) (pr_number p) (reviewers labels)
      else ret ())"

definition openedBody :: "'w collaborators \<Rightarrow> pull_request_payload \<Rightarrow> ('w, unit) prog" where
  "openedBody C p = bnd (summarizeAndLabel C p) (requestReviews C p)"

definition notCollaborator :: "error \<Rightarrow> bool" where
  "notCollaborator err \<longleftrightarrow>
     status err = Some 422 \<and> includesStr (message err) ''not a collaborator''"

definition blankBody :: "string option \<Rightarrow> bool" where
  \<comment> \<open>\<^verbatim>\<open>!body?.trim()\<close>\<close>
  "blankBody b = (case b of None \<Rightarrow> True | Some t \<Rightarrow> trim t = [])"

definition openedHandler :: "'w collaborators \<Rightarrow> pull_request_payload \<Rightarrow> ('w, unit) prog" where
  "openedHandler C p =
     (if blankBody (pr_body p)
      then tryCatch (openedBody C p)
             (\<lambda>err. if notCollaborator err then console WarnNotCollaborators else throw err)
      else console (LogHasDescription (pr_number p)))"

section \<open>The handler of \<^verbatim>\<open>pull_request.synchronize\<close>\<close>

definition separator :: string where
  "separator = ''\<newline>\<newline>---\<newline>\<newline>''"

definition patchLines :: "string \<Rightarrow> string list" where
  "patchLines p = take 20 (splitOn CHR 0x0A p)"

text \<open>The entries of the diff section; \<^verbatim>\<open>f.patch!.split\<close> throws when the file has no patch.\<close>

fun diffEntries :: "changed_file list \<Rightarrow> error + string list" where
  "diffEntries [] = Inr []"
| "diffEntries (f # fs) =
     (case patch f of
        None \<Rightarrow> Inl (TypeError ''Cannot read properties of undefined'')
      | Some p \<Rightarrow>
          (case diffEntries fs of
             Inl e \<Rightarrow> Inl e
           | Inr ds \<Rightarrow>
               Inr ((''File: '' @ filename f @ ''\<newline>'' @ join ''\<newline>'' (patchLines p)) # ds)))"

definition diffSnippet :: "changed_file list \<Rightarrow> error + string" where
  "diffSnippet filesChanged =
     (case diffEntries (take 3 filesChanged) of
        Inl e \<Rightarrow> Inl e
      | Inr ds \<Rightarrow> Inr (join separator ds))"

definition contentEntries :: "file_content list \<Rightarrow> string list" where
  "contentEntries fileContents =
     map (\<lambda>f. ''// '' @ filename f @ ''\<newline>'' @ take 2000 (content f)) (take 3 fileContents)"

definition contentSnippet :: "file_content list \<Rightarrow> string" where
  "contentSnippet fileContents = join separator (contentEntries fileContents)"

definition promptHead :: string where
  "promptHead =
     ''\<newline>      You are a senior software engineer reviewing a pull request. Below is the diff and file contents.\<newline>      \<newline>      Please:\<newline>      - Summarize the intent of the commit in 2''
     @ endash @
     ''3 bullet points.\<newline>      - For each file, suggest improvements or note issues.\<newline>      - Highlight bugs, missing functionality, or bad practices.\<newline>      - Mention any security, logic, or performance issues.\<newline>      \<newline>      <<DIFF>>\<newline>      ''"

definition promptMid :: string where
  "promptMid = ''\<newline>      \<newline>      <<FILES>>\<newline>      ''"

definition promptEnd :: string where
  "promptEnd = ''\<newline>      \<newline>      <<END>>\<newline>      ''"

definition prompt :: "string \<Rightarrow> string \<Rightarrow> string" where
  "prompt diff contents = promptHead @ diff @ promptMid @ contents @ promptEnd"

definition reviewPrompt :: "changed_file list \<Rightarrow> file_content list \<Rightarrow> error + string" where
  "reviewPrompt filesChanged fileContents =
     (case diffSnippet filesChanged of
        Inl e \<Rightarrow> Inl e
      | Inr diff \<Rightarrow> Inr (prompt diff (contentSnippet fileContents)))"

definition fetchContent ::
    "'w collaborators \<Rightarrow> string \<Rightarrow> string \<Rightarrow> string \<Rightarrow> changed_file \<Rightarrow> ('w, file_content) prog" where
  \<comment> \<open>\<^verbatim>\<open>Buffer.from(undefined, 'base64')\<close> throws a \<^verbatim>\<open>TypeError\<close>.\<close>
  "fetchContent C ow rp sha f =
     bnd (getContent C ow rp (filename f) sha) (\<lambda>d.
       case d of
         None \<Rightarrow> throw (TypeError ''The first argument must be of type string'')
       | Some c \<Rightarrow> ret \<lparr>filename = filename f, patch = patch f, content = c\<rparr>)"

definition synchronizeBody :: "'w collaborators \<Rightarrow> pull_request_payload \<Rightarrow> ('w, unit) prog" where
  "synchronizeBody C p =
     bnd (getCommit C (repo_owner p) (repo_name p) (pr_head_sha p)) (\<lambda>commitFiles.
     let filesChanged = (case commitFiles of None \<Rightarrow> [] | Some fs \<Rightarrow> fs)
     in if filesChanged = []
        then console (LogNoFileChanges (pr_number p) (pr_head_sha p))
        else
          bnd (promiseAll
                 (map (fetchContent C (repo_owner p) (repo_name p) (pr_head_sha p))
                    filesChanged)) (\<lambda>fileContents.
          bnd (liftE (reviewPrompt filesChanged fileContents)) (\<lambda>pr.
          bnd (completionsCreate C pr 400 2) (\<lambda>completion.
          bnd (firstChoiceText completion) (\<lambda>txt.
          bnd (createComment C (repo_owner p) (repo_name p) (pr_number p)
                 (''### '' @ robot @ '' Commit Review ('' @ take 7 (pr_head_sha p)
                    @ '')\<newline>\<newline>'' @ trim txt @ ''\<newline>\<newline>---\<newline>'')) (\<lambda>_.
          bnd (checksCreate C (repo_owner p) (repo_name p) (pr_head_sha p) (pr_number p)
                 (trim txt)) (\<lambda>_.
          console (LogPostedReview (pr_number p) (pr_head_sha p)))))))))"

definition synchronizeHandler ::
    "'w collaborators \<Rightarrow> pull_request_payload \<Rightarrow> ('w, unit) prog" where
  "synchronizeHandler C p =
     tryCatch (synchronizeBody C p)
       (\<lambda>err. console (ErrorReviewing (pr_head_sha p) (pr_number p) err))"

section \<open>The handler of \<^verbatim>\<open>issue_comment.created\<close>\<close>

record issue_comment_payload =
  comment_body :: string
  issue_number :: nat
  issue_pull_request :: bool
  comment_repo_owner :: string
  comment_repo_name :: string

datatype slash_command =
  Summarize | Review | Labels "string list" | Assign "string list" | Unrecognized

text \<open>
  The handler is one \<^verbatim>\<open>if\<close>/\<^verbatim>\<open>else if\<close> chain. \<open>parseCommand\<close> holds the conditions
  of the chain and the argument expressions, \<open>execCommand\<close> the bodies of its branches.
\<close>

definition parseCommand :: "string \<Rightarrow> slash_command" where
  "parseCommand comment =
     (if prefix ''/summarize'' comment then Summarize
      else if prefix ''/review'' comment then Review
      else if prefix ''/labels'' comment
        then Labels (splitWs (trim (replaceFirst ''/labels'' [] comment)))
      else if prefix ''/assign'' comment
        then Assign (splitWs (trim (replaceFirst ''/assign'' [] comment)))
      else Unrecognized)"

fun execCommand ::
    "'w collaborators \<Rightarrow> string \<Rightarrow> string \<Rightarrow> nat \<Rightarrow> slash_command \<Rightarrow> ('w, unit) prog" where
  "execCommand C ow rp n Summarize = console (LogSlashSummarize n)"
| "execCommand C ow rp n Review = console (LogSlashReview n)"
| "execCommand C ow rp n (Labels labels) =
     bnd (addLabels C ow rp n labels) (\<lambda>_. console (LogSlashLabels labels n))"
| "execCommand C ow rp n (Assign rs) =
     bnd (requestReviewers C ow rp n (map Login rs)) (\<lambda>_. console (LogSlashReviewers rs n))"
| "execCommand C ow rp n Unrecognized = ret ()"

definition issueCommentHandler ::
    "'w collaborators \<Rightarrow> issue_comment_payload \<Rightarrow> ('w, unit) prog" where
  "issueCommentHandler C p =
     (if \<not> issue_pull_request p then ret ()
      else tryCatch
             (execCommand C (comment_repo_owner p) (comment_repo_name p) (issue_number p)
                (parseCommand (trim (comment_body p))))
             (\<lambda>err. console (ErrorSlash err)))"


section \<open>A small hosting service for running the handlers\<close>

text \<open>
  The world is the list of label names that exist on the repository. Adding a label
  that does not exist fails with status 404, creating a label makes it exist. The
  configuration fixes the model's answer to the label prompt, an error forced on every
  label addition or reviewer request, and the files of the head commit.
\<close>

record sim_config =
  sim_labels_text :: string
  sim_add_error :: "error option"
  sim_review_error :: "error option"
  sim_commit_files :: "changed_file list"

definition sim :: "sim_config \<Rightarrow> string list collaborators" where
  "sim cfg =
     \<lparr>completions_create =
        (\<lambda>pr max_tokens t w.
           (Inr [if max_tokens = 20 then sim_labels_text cfg else '' Fixes a crash. ''], w)),
      issues_createComment = (\<lambda>ow rp n txt w. (Inr (), w)),
      pulls_listFiles = (\<lambda>ow rp n w. (Inr [''a.ts''], w)),
      issues_addLabels =
        (\<lambda>ow rp n ls w.
           case sim_add_error cfg of
             Some e \<Rightarrow> (Inl e, w)
           | None \<Rightarrow>
               if set ls \<subseteq> set w then (Inr (), w)
               else (Inl (Error (Some 404) ''Not Found''), w)),
      issues_createLabel = (\<lambda>ow rp nm color w. (Inr (), nm # w)),
      pulls_requestReviewers =
        (\<lambda>ow rp n rs w.
           case sim_review_error cfg of Some e \<Rightarrow> (Inl e, w) | None \<Rightarrow> (Inr (), w)),
      repos_getCommit = (\<lambda>ow rp ref w. (Inr (Some (sim_commit_files cfg)), w)),
      repos_getContent = (\<lambda>ow rp path ref w. (Inr (Some (''content of '' @ path)), w)),
      checks_create = (\<lambda>ow rp sha n summary w. (Inr (), w))\<rparr>"

definition start :: "string list \<Rightarrow> string list state" where
  "start existing = \<lparr>world = existing, trace = [], logs = []\<rparr>"

definition openedPayload :: "string option \<Rightarrow> pull_request_payload" where
  "openedPayload b =
     \<lparr>pr_body = b, pr_number = 7, pr_title = ''Fix crash'',
      pr_html_url = ''https://example.test/pull/7'', pr_head_sha = ''0123456789abcdef'',
      repo_owner = ''octo'', repo_name = ''demo''\<rparr>"

definition commentPayload :: "string \<Rightarrow> issue_comment_payload" where
  "commentPayload txt =
     \<lparr>comment_body = txt, issue_number = 7, issue_pull_request = True,
      comment_repo_owner = ''octo'', comment_repo_name = ''demo''\<rparr>"

text \<open>
  Configurations of the service: one without forced errors, one that rejects every
  reviewer request with a given error (with GitHub's message for a reviewer who is no
  collaborator), and one whose head commit has the given files. \<open>fourFiles\<close> is a commit
  of four files, the patch of the second being a parameter.
\<close>

definition simDefault :: sim_config where
  "simDefault =
     \<lparr>sim_labels_text = ''bug, docs'', sim_add_error = None, sim_review_error = None,
      sim_commit_files = []\<rparr>"



definition simCommit :: "changed_file list \<Rightarrow> string list collaborators" where
  "simCommit files = sim (simDefault\<lparr>sim_commit_files := files\<rparr>)"

definition fourFiles :: "string option \<Rightarrow> changed_file list" where
  "fourFiles second =
     [\<lparr>filename = ''a.ts'', patch = Some ''@@ -1 +1 @@\<newline>-x\<newline>+y''\<rparr>,
      \<lparr>filename = ''b.png'', patch = second\<rparr>,
      \<lparr>filename = ''c.ts'', patch = Some ''+z''\<rparr>,
      \<lparr>filename = ''d.ts'', patch = Some ''+w''\<rparr>]"

definition fourContents :: "file_content list" where
  "fourContents =
     map (\<lambda>f. \<lparr>filename = filename f, patch = patch f, content = ''content of '' @ filename f\<rparr>)
       (fourFiles (Some ''+p''))"



section \<open>Notions used in the proofs\<close>

text \<open>A program grows the list of requests: it only appends to it.\<close>

definition grows :: "('w, 'a) prog \<Rightarrow> bool" where
  "grows m \<longleftrightarrow> (\<forall>s. prefix (trace s) (trace (snd (m s))))"

named_theorems grows_intros

fun isGetContent :: "call \<Rightarrow> bool" where
  \<comment> \<open>The requests that read the content of a file.\<close>
  "isGetContent (GetContent ow rp path ref) = True"
| "isGetContent c = False"

fun firstOccurrences :: "'a list \<Rightarrow> 'a list" where
  \<comment> \<open>The specification's deduplication: each element once, at its first occurrence.\<close>
  "firstOccurrences [] = []"
| "firstOccurrences (x # xs) = x # firstOccurrences (filter (\<lambda>y. y \<noteq> x) xs)"

definition tableEntries :: "string \<Rightarrow> string list" where
  \<comment> \<open>The specification's reading of the table: the entries written for a label, and
     nothing for a label that is not written in it.\<close>
  "tableEntries l = (case map_of labelToReviewers l of None \<Rightarrow> [] | Some rs \<Rightarrow> rs)"

section \<open>Properties of the string functions\<close>

lemma splitOn_nonempty: "splitOn c s \<noteq> []"
  by (induction s) (auto split: list.splits)

lemma join_splitOn: "join [c] (splitOn c s) = s"
proof (induction s)
  case Nil show ?case by simp
next
  case (Cons x xs)
  obtain t ts where sp: "splitOn c xs = t # ts" using splitOn_nonempty[of c xs] by (cases "splitOn c xs") auto
  show ?case using Cons sp by (cases ts) auto
qed

lemma splitOn_free: "p \<in> set (splitOn c s) \<Longrightarrow> c \<notin> set p"
  by (induction s arbitrary: p) (auto split: if_splits list.splits)

text \<open>A trimmed string that is not empty starts and ends with a character that is not white space.\<close>

lemma trim_hd: assumes "trim s \<noteq> []" shows "\<not> isWhiteSpace (hd (trim s))"
proof -
  let ?ys = "dropWhile isWhiteSpace s"
  let ?zs = "dropWhile isWhiteSpace (rev ?ys)"
  from assms have zs: "?zs \<noteq> []" by (simp add: trim_def)
  have ys: "?ys \<noteq> []"
  proof
    assume e: "?ys = []"
    have "?zs = []" unfolding e by simp
    with zs show False by simp
  qed
  have "hd (trim s) = last ?zs" using zs by (simp add: trim_def hd_rev)
  also have "\<dots> = last (rev ?ys)"
    using zs by (metis last_appendR takeWhile_dropWhile_id)
  also have "\<dots> = hd ?ys" using ys by (simp add: last_rev)
  finally show ?thesis using hd_dropWhile[OF ys] by simp
qed

lemma trim_last: assumes "trim s \<noteq> []" shows "\<not> isWhiteSpace (last (trim s))"
proof -
  let ?zs = "dropWhile isWhiteSpace (rev (dropWhile isWhiteSpace s))"
  from assms have zs: "?zs \<noteq> []" by (simp add: trim_def)
  have "last (trim s) = hd ?zs" using zs by (simp add: trim_def last_rev)
  then show ?thesis using hd_dropWhile[OF zs] by simp
qed

text \<open>
  C2, as amended. For every raw model output, the label list holds no empty string; it is
  the list of the non-empty trimmed pieces of the trimmed, lower-cased output, where the
  pieces are what lies between the commas, in the order of the text and each as often as
  it occurs. Every label starts and ends with a character that is not white space.
  Duplicates are kept.
\<close>

theorem suggestedLabels_tokens:
  "\<exists>pieces. join '','' pieces = toLowerCase (trim txt)
     \<and> (\<forall>p \<in> set pieces. CHR '','' \<notin> set p)
     \<and> suggestedLabels txt = filter (\<lambda>l. l \<noteq> []) (map trim pieces)
     \<and> (\<forall>l \<in> set (suggestedLabels txt).
           l \<noteq> [] \<and> \<not> isWhiteSpace (hd l) \<and> \<not> isWhiteSpace (last l))"
proof (intro exI conjI)
  let ?pieces = "splitOn CHR '','' (toLowerCase (trim txt))"
  show "join '','' ?pieces = toLowerCase (trim txt)" by (rule join_splitOn)
  show "\<forall>p \<in> set ?pieces. CHR '','' \<notin> set p" using splitOn_free by blast
  show "suggestedLabels txt = filter (\<lambda>l. l \<noteq> []) (map trim ?pieces)"
    by (simp add: suggestedLabels_def)
  show "\<forall>l \<in> set (suggestedLabels txt).
           l \<noteq> [] \<and> \<not> isWhiteSpace (hd l) \<and> \<not> isWhiteSpace (last l)"
    using trim_hd trim_last by (auto simp: suggestedLabels_def)
qed

text \<open>The definitions that evaluate the string functions on a literal.\<close>

lemmas str_eval = suggestedLabels_def trim_def isWhiteSpace_def toLowerCase_def
  lowerChar_def upperCase_def lowerCase_def

text \<open>The statement of C2 as amended at the output \<^verbatim>\<open>" Bug, docs,,bug "\<close>.\<close>

theorem suggestedLabels_tokens_witness:
  "suggestedLabels '' Bug, docs,,bug '' = [''bug'', ''docs'', ''bug'']
   \<and> (\<exists>pieces. join '','' pieces = ''bug, docs,,bug''
     \<and> (\<forall>p \<in> set pieces. CHR '','' \<notin> set p)
     \<and> [''bug'', ''docs'', ''bug''] = filter (\<lambda>l. l \<noteq> []) (map trim pieces))"
proof -
  have v: "suggestedLabels '' Bug, docs,,bug '' = [''bug'', ''docs'', ''bug'']"
    by (simp add: str_eval)
  have t: "toLowerCase (trim '' Bug, docs,,bug '') = ''bug, docs,,bug''"
    by (simp add: str_eval)
  show ?thesis using suggestedLabels_tokens [of "'' Bug, docs,,bug ''"] unfolding v t
    by blast
qed

text \<open>
  C2 as stated fails: the output \<^verbatim>\<open>"bug, Bug"\<close> gives the same label twice, since the
  source removes no duplicate from \<^verbatim>\<open>suggestedLabels\<close>.
\<close>

theorem suggestedLabels_duplicates_counterexample:
  "suggestedLabels ''bug, Bug'' = [''bug'', ''bug''] \<and> \<not> distinct (suggestedLabels ''bug, Bug'')"
  by (simp add: str_eval)

section \<open>Properties of the handlers\<close>

lemmas monad_defs = ret_def throw_def bnd_def tryCatch_def liftE_def perform_def console_def

lemmas call_defs = completionsCreate_def createComment_def listFiles_def addLabels_def
  createLabel_def requestReviewers_def getCommit_def getContent_def checksCreate_def

lemma grows_ret [grows_intros]: "grows (ret x)"
  by (simp add: grows_def ret_def)

lemma grows_throw [grows_intros]: "grows (throw e)"
  by (simp add: grows_def throw_def)

lemma grows_console [grows_intros]: "grows (console l)"
  by (simp add: grows_def console_def)

lemma grows_liftE [grows_intros]: "grows (liftE r)"
  by (simp add: grows_def liftE_def)

lemma grows_perform [grows_intros]: "grows (perform c f)"
  by (simp add: grows_def perform_def split: prod.splits)

lemma grows_bnd [grows_intros]:
  assumes "grows m" and "\<And>x. grows (f x)"
  shows "grows (bnd m f)"
proof -
  have "prefix (trace s) (trace (snd (bnd m f s)))" for s
  proof (cases "m s")
    case (Pair r s')
    have a: "prefix (trace s) (trace s')" using assms(1) Pair by (auto simp: grows_def dest: spec[of _ s])
    show ?thesis
    proof (cases r)
      case (Inl e)
      then show ?thesis using a Pair by (simp add: bnd_def)
    next
      case (Inr x)
      have "prefix (trace s') (trace (snd (f x s')))" using assms(2)[of x] by (simp add: grows_def)
      then show ?thesis using a Pair Inr by (auto simp: bnd_def intro: prefix_order.trans)
    qed
  qed
  then show ?thesis by (simp add: grows_def)
qed

lemma grows_tryCatch [grows_intros]:
  assumes "grows m" and "\<And>e. grows (h e)"
  shows "grows (tryCatch m h)"
proof -
  have "prefix (trace s) (trace (snd (tryCatch m h s)))" for s
  proof (cases "m s")
    case (Pair r s')
    have a: "prefix (trace s) (trace s')" using assms(1) Pair by (auto simp: grows_def dest: spec[of _ s])
    show ?thesis
    proof (cases r)
      case (Inr x)
      then show ?thesis using a Pair by (simp add: tryCatch_def)
    next
      case (Inl e)
      have "prefix (trace s') (trace (snd (h e s')))" using assms(2)[of e] by (simp add: grows_def)
      then show ?thesis using a Pair Inl by (auto simp: tryCatch_def intro: prefix_order.trans)
    qed
  qed
  then show ?thesis by (simp add: grows_def)
qed

lemma grows_if [grows_intros]: "grows a \<Longrightarrow> grows b \<Longrightarrow> grows (if c then a else b)"
  by simp

lemma grows_firstChoiceText [grows_intros]: "grows (firstChoiceText cs)"
  by (cases cs) (simp_all add: firstChoiceText_def grows_intros)

lemma grows_calls [grows_intros]:
  "grows (completionsCreate C pr mt t)"
  "grows (createComment C ow rp n txt)"
  "grows (listFiles C ow rp n)"
  "grows (addLabels C ow rp n ls)"
  "grows (createLabel C ow rp nm col)"
  "grows (requestReviewers C ow rp n rs)"
  by (simp_all add: call_defs grows_perform)

lemma grows_applyLabels [grows_intros]: "grows (applyLabels C ow rp n ls)"
  by (induction ls) (auto intro!: grows_intros)

lemma grows_requestReviews [grows_intros]: "grows (requestReviews C p labels)"
  by (auto simp: requestReviews_def intro!: grows_intros)

lemma grows_summarizeAndLabel: "grows (summarizeAndLabel C p)"
  unfolding summarizeAndLabel_def by (intro grows_intros)

lemma growsD: "grows m \<Longrightarrow> \<exists>rest. trace (snd (m s)) = trace s @ rest"
  by (auto simp: grows_def prefix_def)

text \<open>
  C6. When the description of an opened pull request is not blank after trimming, the
  handler returns normally, leaves the world and the list of requests as they were and
  writes one log line. When the description is absent or blank, the handler starts the
  enrichment flow: its first request is the summary request to the model.
\<close>

theorem opened_nonblank_noop:
  "(\<forall>b. pr_body p = Some b \<and> trim b \<noteq> [] \<longrightarrow>
      openedHandler C p s = (Inr (), s\<lparr>logs := logs s @ [LogHasDescription (pr_number p)]\<rparr>))
   \<and> (pr_body p = None \<or> (\<exists>b. pr_body p = Some b \<and> trim b = []) \<longrightarrow>
        (\<exists>rest. trace (snd (openedHandler C p s)) =
           trace s @ CompletionsCreate (summaryPrompt (pr_title p) (pr_html_url p)) 150 7 # rest))"
proof (intro conjI allI impI)
  fix b assume "pr_body p = Some b \<and> trim b \<noteq> []"
  then show "openedHandler C p s = (Inr (), s\<lparr>logs := logs s @ [LogHasDescription (pr_number p)]\<rparr>)"
    by (simp add: openedHandler_def blankBody_def console_def)
next
  let ?c = "CompletionsCreate (summaryPrompt (pr_title p) (pr_html_url p)) 150 7"
  let ?h = "\<lambda>err. if notCollaborator err then console WarnNotCollaborators else throw err"
  assume "pr_body p = None \<or> (\<exists>b. pr_body p = Some b \<and> trim b = [])"
  then have blank: "blankBody (pr_body p)" by (auto simp: blankBody_def)
  obtain r w where f: "completions_create C (summaryPrompt (pr_title p) (pr_html_url p)) 150 7 (world s) = (r, w)"
    by (cases "completions_create C (summaryPrompt (pr_title p) (pr_html_url p)) 150 7 (world s)")
  let ?s1 = "s\<lparr>world := w, trace := trace s @ [?c]\<rparr>"
  show "\<exists>rest. trace (snd (openedHandler C p s)) = trace s @ ?c # rest"
  proof (cases r)
    case (Inl e)
    then have "trace (snd (openedHandler C p s)) = trace s @ [?c]"
      using blank f
      by (simp add: openedHandler_def openedBody_def summarizeAndLabel_def completionsCreate_def
          monad_defs)
    then show ?thesis by simp
  next
    case (Inr completion)
    define k where "k = tryCatch (bnd (
     bnd (firstChoiceText completion) (\<lambda>txt.
     bnd (createComment C (repo_owner p) (repo_name p) (pr_number p)
            (''### '' @ memo @ '' PR Summary\<newline>\<newline>'' @ trim txt)) (\<lambda>_.
     bnd (console (LogCommentedSummary (pr_number p))) (\<lambda>_.
     bnd (listFiles C (repo_owner p) (repo_name p) (pr_number p)) (\<lambda>files.
     bnd (completionsCreate C
            (labelPrompt (pr_title p) (pr_body p)
               (join ''\<newline>'' (map (\<lambda>f. ''- '' @ f) files))) 20 0) (\<lambda>labelsRes.
     bnd (firstChoiceText labelsRes) (\<lambda>ltxt.
     bnd (applyLabels C (repo_owner p) (repo_name p) (pr_number p) (suggestedLabels ltxt)) (\<lambda>_.
     ret (suggestedLabels ltxt))))))))) (requestReviews C p)) ?h"
    have g: "grows k" unfolding k_def by (intro grows_intros)
    have "openedHandler C p s = k ?s1"
      using blank f Inr
      by (simp add: openedHandler_def openedBody_def summarizeAndLabel_def completionsCreate_def
          perform_def bnd_def tryCatch_def k_def)
    moreover obtain rest where "trace (snd (k ?s1)) = trace ?s1 @ rest"
      using growsD[OF g] by blast
    ultimately show ?thesis by simp
  qed
qed

lemmas sim_eval = sim_def simDefault_def start_def openedPayload_def commentPayload_def

text \<open>C6 at a pull request with the description \<^verbatim>\<open>" Fixes #12 "\<close> and at one with a
  description of two spaces.\<close>

theorem opened_nonblank_noop_witness:
  "openedHandler (sim simDefault) (openedPayload (Some '' Fixes #12 '')) (start [])
     = (Inr (), \<lparr>world = [], trace = [], logs = [LogHasDescription 7]\<rparr>)
   \<and> (\<exists>rest. trace (snd (openedHandler (sim simDefault) (openedPayload (Some ''  '')) (start [])))
        = CompletionsCreate (summaryPrompt ''Fix crash'' ''https://example.test/pull/7'') 150 7 # rest)"
  using opened_nonblank_noop [where p = "openedPayload (Some '' Fixes #12 '')"
      and C = "sim simDefault" and s = "start []"]
    opened_nonblank_noop [where p = "openedPayload (Some ''  '')"
      and C = "sim simDefault" and s = "start []"]
  by (simp add: openedPayload_def start_def trim_def isWhiteSpace_def)

lemma parse_labels_bare: "parseCommand ''/labels'' = Labels [[]]"
  by (simp add: parseCommand_def trim_def splitWs.simps)

lemma parse_assign_bare: "parseCommand ''/assign'' = Assign [[]]"
  by (simp add: parseCommand_def trim_def splitWs.simps)

text \<open>
  C9. On a pull request, a comment whose trimmed body is exactly \<^verbatim>\<open>/labels\<close> makes the
  handler call \<^verbatim>\<open>addLabels\<close> with the one-element list holding the empty string, and
  one whose trimmed body is exactly \<^verbatim>\<open>/assign\<close> makes it call \<^verbatim>\<open>requestReviewers\<close>
  with the one-element list holding the empty string; each is the only request made.
\<close>

theorem slash_without_arguments:
  "issue_pull_request p \<longrightarrow>
     (trim (comment_body p) = ''/labels'' \<longrightarrow>
        trace (snd (issueCommentHandler C p s)) =
          trace s @ [AddLabels (comment_repo_owner p) (comment_repo_name p) (issue_number p) [[]]])
   \<and> (trim (comment_body p) = ''/assign'' \<longrightarrow>
        trace (snd (issueCommentHandler C p s)) =
          trace s @ [RequestReviewers (comment_repo_owner p) (comment_repo_name p)
                       (issue_number p) [Login []]])"
  by (auto simp: issueCommentHandler_def parse_labels_bare parse_assign_bare call_defs monad_defs
      split: prod.splits sum.splits)

text \<open>C9 at the comments \<^verbatim>\<open>"  /labels  "\<close> and \<^verbatim>\<open>"/assign "\<close>.\<close>

theorem slash_without_arguments_witness:
  "trim ''  /labels  '' = ''/labels'' \<and> trim ''/assign '' = ''/assign''
   \<and> trace (snd (issueCommentHandler (sim simDefault) (commentPayload ''  /labels  '') (start [])))
        = [AddLabels ''octo'' ''demo'' 7 [[]]]
   \<and> trace (snd (issueCommentHandler (sim simDefault) (commentPayload ''/assign '') (start [])))
        = [RequestReviewers ''octo'' ''demo'' 7 [Login []]]"
  using slash_without_arguments [where p = "commentPayload ''  /labels  ''"
      and C = "sim simDefault" and s = "start []"]
    slash_without_arguments [where p = "commentPayload ''/assign ''"
      and C = "sim simDefault" and s = "start []"]
  by (simp add: commentPayload_def start_def trim_def isWhiteSpace_def)

text \<open>
  One round of the label loop, by the outcome of the first \<^verbatim>\<open>addLabels\<close>: success, a
  404 (the label is created with the colour \<^verbatim>\<open>cfd3d7\<close> and added again, and an error
  of either request leaves the loop), and any other error.
\<close>

lemma applyLabels_added:
  assumes "issues_addLabels C ow rp n [l] (world s) = (Inr (), w)"
  shows "applyLabels C ow rp n (l # rest) s =
           applyLabels C ow rp n rest (s\<lparr>world := w, trace := trace s @ [AddLabels ow rp n [l]]\<rparr>)"
  using assms by (simp add: addLabels_def monad_defs)

lemma applyLabels_not_found:
  assumes "issues_addLabels C ow rp n [l] (world s) = (Inl e, w)" and "status e = Some 404"
  shows "applyLabels C ow rp n (l # rest) s =
           bnd (bnd (createLabel C ow rp l ''cfd3d7'') (\<lambda>_. addLabels C ow rp n [l]))
             (\<lambda>_. applyLabels C ow rp n rest)
             (s\<lparr>world := w, trace := trace s @ [AddLabels ow rp n [l]]\<rparr>)"
  using assms by (simp add: addLabels_def createLabel_def monad_defs split: prod.splits sum.splits)

lemma applyLabels_other_failure:
  assumes "issues_addLabels C ow rp n [l] (world s) = (Inl e, w)" and "status e \<noteq> Some 404"
  shows "applyLabels C ow rp n (l # rest) s =
           applyLabels C ow rp n rest (s\<lparr>world := w, trace := trace s @ [AddLabels ow rp n [l]]\<rparr>)"
  using assms by (simp add: addLabels_def monad_defs)

text \<open>
  C1 says that a failure of the first add other than not-found propagates to the caller.
  The loop run on the label \<^verbatim>\<open>bug\<close> against a service whose \<^verbatim>\<open>addLabels\<close> fails with
  status 500: the loop returns normally after the one failed request.
\<close>

theorem applyLabels_swallows_server_error:
  "applyLabels (sim (simDefault\<lparr>sim_add_error := Some (Error (Some 500) ''Server Error'')\<rparr>))
       ''octo'' ''demo'' 7 [''bug''] (start [''bug''])
     = (Inr (), \<lparr>world = [''bug''], trace = [AddLabels ''octo'' ''demo'' 7 [''bug'']], logs = []\<rparr>)"
  by (simp add: sim_eval addLabels_def monad_defs)












text \<open>Reading the contents sends one request per file, in the order of the list, whatever
  the outcome of each, and writes no log line.\<close>

lemma settleAll_fetch_trace:
  "trace (snd (settleAll (map (fetchContent C ow rp sha) fs) s)) =
     trace s @ map (\<lambda>f. GetContent ow rp (filename f) sha) fs"
proof (induction fs arbitrary: s)
  case Nil show ?case by simp
next
  case (Cons f fs)
  obtain r s' where st: "fetchContent C ow rp sha f s = (r, s')" by (cases "fetchContent C ow rp sha f s")
  have tr: "trace s' = trace s @ [GetContent ow rp (filename f) sha]"
    using st by (auto simp: fetchContent_def getContent_def monad_defs split: prod.splits sum.splits option.splits)
  show ?case using Cons.IH[of s'] st tr by (auto split: prod.splits)
qed

lemma settleAll_fetch_logs:
  "logs (snd (settleAll (map (fetchContent C ow rp sha) fs) s)) = logs s"
proof (induction fs arbitrary: s)
  case Nil show ?case by simp
next
  case (Cons f fs)
  obtain r s' where st: "fetchContent C ow rp sha f s = (r, s')" by (cases "fetchContent C ow rp sha f s")
  have tr: "logs s' = logs s"
    using st by (auto simp: fetchContent_def getContent_def monad_defs split: prod.splits sum.splits option.splits)
  show ?case using Cons.IH[of s'] st tr by (auto split: prod.splits)
qed

lemma diffEntries_missing_patch:
  "\<exists>f \<in> set fs. patch f = None \<Longrightarrow>
     diffEntries fs = Inl (TypeError ''Cannot read properties of undefined'')"
proof (induction fs)
  case Nil then show ?case by simp
next
  case (Cons f fs)
  show ?case
  proof (cases "patch f")
    case None then show ?thesis by simp
  next
    case (Some p)
    with Cons.prems have "\<exists>f \<in> set fs. patch f = None" by auto
    with Cons.IH Some show ?thesis by simp
  qed
qed

lemma promiseAll_fetch:
  assumes "promiseAll (map (fetchContent C ow rp sha) fs) s = (r, s')"
  shows "trace s' = trace s @ map (\<lambda>f. GetContent ow rp (filename f) sha) fs"
    and "logs s' = logs s"
  using assms settleAll_fetch_trace [of C ow rp sha fs s] settleAll_fetch_logs [of C ow rp sha fs s]
  by (auto simp: promiseAll_def split: prod.splits)

text \<open>
  C10. Let the commit fetch return a file list in which one of the first three files has
  no patch. Then the handler returns normally; its requests are the commit fetch and the
  content reads and nothing else, so no model call, no comment and no check run; and the
  error is only logged. When every content read succeeded, the logged error is the
  \<^verbatim>\<open>TypeError\<close> thrown while the diff section is built (a failed content read is
  thrown, and logged, before the diff section is reached).
\<close>

theorem synchronize_missing_patch:
  assumes commit: "repos_getCommit C (repo_owner p) (repo_name p) (pr_head_sha p) (world s)
                     = (Inr (Some files), w)"
    and missing: "\<exists>f \<in> set (take 3 files). patch f = None"
  shows "\<exists>e s'. synchronizeHandler C p s = (Inr (), s')
           \<and> trace s' = trace s @ GetCommit (repo_owner p) (repo_name p) (pr_head_sha p)
                 # map (\<lambda>f. GetContent (repo_owner p) (repo_name p) (filename f) (pr_head_sha p)) files
           \<and> logs s' = logs s @ [ErrorReviewing (pr_head_sha p) (pr_number p) e]
           \<and> ((\<exists>cs. fst (promiseAll
                          (map (fetchContent C (repo_owner p) (repo_name p) (pr_head_sha p)) files)
                          (s\<lparr>world := w,
                             trace := trace s @ [GetCommit (repo_owner p) (repo_name p) (pr_head_sha p)]\<rparr>))
                      = Inr cs)
                \<longrightarrow> e = TypeError ''Cannot read properties of undefined'')"
proof -
  let ?s1 = "s\<lparr>world := w, trace := trace s @ [GetCommit (repo_owner p) (repo_name p) (pr_head_sha p)]\<rparr>"
  let ?fetch = "promiseAll (map (fetchContent C (repo_owner p) (repo_name p) (pr_head_sha p)) files)"
  from missing have ne: "files \<noteq> []" by auto
  obtain r s2 where f: "?fetch ?s1 = (r, s2)" by (cases "?fetch ?s1")
  note tl = promiseAll_fetch [OF f]
  have diff: "diffSnippet files = Inl (TypeError ''Cannot read properties of undefined'')"
    using diffEntries_missing_patch [OF missing] by (simp add: diffSnippet_def)
  show ?thesis
  proof (cases r)
    case (Inl e)
    have "synchronizeHandler C p s
            = (Inr (), s2\<lparr>logs := logs s2 @ [ErrorReviewing (pr_head_sha p) (pr_number p) e]\<rparr>)"
      using commit ne f Inl
      by (simp add: synchronizeHandler_def synchronizeBody_def getCommit_def monad_defs)
    then show ?thesis using tl f Inl by auto
  next
    case (Inr cs)
    have "synchronizeHandler C p s
            = (Inr (), s2\<lparr>logs := logs s2 @ [ErrorReviewing (pr_head_sha p) (pr_number p)
                                               (TypeError ''Cannot read properties of undefined'')]\<rparr>)"
      using commit ne f Inr diff
      by (simp add: synchronizeHandler_def synchronizeBody_def getCommit_def reviewPrompt_def
          monad_defs)
    then show ?thesis using tl f Inr by auto
  qed
qed

text \<open>
  C8, as amended. In the synchronize flow the content requests of the handler are exactly
  one per changed file of the commit, in the order of the list, for every file and not
  only for the first three; the cap of three files applies to what enters the prompt.
\<close>

theorem synchronize_content_requests:
  assumes commit: "repos_getCommit C (repo_owner p) (repo_name p) (pr_head_sha p) (world s)
                     = (Inr (Some files), w)"
  shows "filter isGetContent (trace (snd (synchronizeHandler C p s)))
           = filter isGetContent (trace s)
             @ map (\<lambda>f. GetContent (repo_owner p) (repo_name p) (filename f) (pr_head_sha p)) files"
proof (cases "files = []")
  case True
  then show ?thesis using commit
    by (simp add: synchronizeHandler_def synchronizeBody_def getCommit_def monad_defs)
next
  case False
  let ?s1 = "s\<lparr>world := w, trace := trace s @ [GetCommit (repo_owner p) (repo_name p) (pr_head_sha p)]\<rparr>"
  let ?fetch = "promiseAll (map (fetchContent C (repo_owner p) (repo_name p) (pr_head_sha p)) files)"
  obtain r s2 where f: "?fetch ?s1 = (r, s2)" by (cases "?fetch ?s1")
  note tl = promiseAll_fetch [OF f]
  have m: "filter isGetContent (map (\<lambda>f. GetContent ow rp (filename f) sha) fs)
             = map (\<lambda>f. GetContent ow rp (filename f) sha) fs" for ow rp sha and fs :: "changed_file list"
    by (induction fs) auto
  have "filter isGetContent (trace (snd (synchronizeHandler C p s))) = filter isGetContent (trace s2)"
    using commit False f
    by (auto simp: synchronizeHandler_def synchronizeBody_def getCommit_def firstChoiceText_def
        call_defs monad_defs split: prod.splits sum.splits list.splits)
  then show ?thesis using tl(1) by (simp add: m)
qed

lemmas sync_eval = simCommit_def fourFiles_def sim_def simDefault_def start_def openedPayload_def

text \<open>C10 at a commit of four files whose second file has no patch.\<close>

theorem synchronize_missing_patch_witness:
  "(\<exists>f \<in> set (take 3 (fourFiles None)). patch f = None)
   \<and> fst (synchronizeHandler (simCommit (fourFiles None)) (openedPayload None) (start [])) = Inr ()
   \<and> trace (snd (synchronizeHandler (simCommit (fourFiles None)) (openedPayload None) (start [])))
       = [GetCommit ''octo'' ''demo'' ''0123456789abcdef'',
          GetContent ''octo'' ''demo'' ''a.ts'' ''0123456789abcdef'',
          GetContent ''octo'' ''demo'' ''b.png'' ''0123456789abcdef'',
          GetContent ''octo'' ''demo'' ''c.ts'' ''0123456789abcdef'',
          GetContent ''octo'' ''demo'' ''d.ts'' ''0123456789abcdef'']
   \<and> logs (snd (synchronizeHandler (simCommit (fourFiles None)) (openedPayload None) (start [])))
       = [ErrorReviewing ''0123456789abcdef'' 7 (TypeError ''Cannot read properties of undefined'')]"
proof -
  let ?C = "simCommit (fourFiles None)" and ?p = "openedPayload None" and ?s = "start []"
  have commit: "repos_getCommit ?C (repo_owner ?p) (repo_name ?p) (pr_head_sha ?p) (world ?s)
                  = (Inr (Some (fourFiles None)), [])"
    by (simp add: simCommit_def sim_def simDefault_def start_def)
  have missing: "\<exists>f \<in> set (take 3 (fourFiles None)). patch f = None"
    by (simp add: fourFiles_def)
  have fetched: "\<exists>cs. fst (promiseAll
                   (map (fetchContent ?C (repo_owner ?p) (repo_name ?p) (pr_head_sha ?p)) (fourFiles None))
                   (?s\<lparr>world := [],
                       trace := trace ?s @ [GetCommit (repo_owner ?p) (repo_name ?p) (pr_head_sha ?p)]\<rparr>))
                 = Inr cs"
    by (simp add: promiseAll_def fetchContent_def getContent_def monad_defs sync_eval)
  show ?thesis
    using synchronize_missing_patch [OF commit missing] fetched missing
    by (auto simp: sync_eval)
qed

text \<open>C8 as amended at a commit of four files.\<close>

theorem synchronize_content_requests_witness:
  "filter isGetContent
     (trace (snd (synchronizeHandler (simCommit (fourFiles None)) (openedPayload None) (start []))))
   = [GetContent ''octo'' ''demo'' ''a.ts'' ''0123456789abcdef'',
      GetContent ''octo'' ''demo'' ''b.png'' ''0123456789abcdef'',
      GetContent ''octo'' ''demo'' ''c.ts'' ''0123456789abcdef'',
      GetContent ''octo'' ''demo'' ''d.ts'' ''0123456789abcdef'']"
proof -
  let ?C = "simCommit (fourFiles None)" and ?p = "openedPayload None" and ?s = "start []"
  have commit: "repos_getCommit ?C (repo_owner ?p) (repo_name ?p) (pr_head_sha ?p) (world ?s)
                  = (Inr (Some (fourFiles None)), [])"
    by (simp add: simCommit_def sim_def simDefault_def start_def)
  show ?thesis using synchronize_content_requests [OF commit] by (simp add: sync_eval)
qed

text \<open>
  C8 as stated fails: for a commit of four files, all with a patch, the handler sends four
  content requests and completes.
\<close>

theorem synchronize_fetch_counterexample:
  "length (filter isGetContent
     (trace (snd (synchronizeHandler (simCommit (fourFiles (Some ''+p''))) (openedPayload None)
                    (start []))))) = 4
   \<and> fst (synchronizeHandler (simCommit (fourFiles (Some ''+p''))) (openedPayload None) (start []))
       = Inr ()"
  by (simp add: synchronizeHandler_def synchronizeBody_def promiseAll_def fetchContent_def
      firstChoiceText_def reviewPrompt_def diffSnippet_def call_defs monad_defs sync_eval)

text \<open>The entries of the diff section, when every file has a patch.\<close>

lemma diffEntries_Inr:
  "diffEntries fs = Inr ds \<Longrightarrow>
     length ds = length fs
     \<and> (\<forall>d \<in> set ds. \<exists>f \<in> set fs. \<exists>p. patch f = Some p
            \<and> d = ''File: '' @ filename f @ ''\<newline>'' @ join ''\<newline>'' (patchLines p))"
proof (induction fs arbitrary: ds)
  case Nil
  then show ?case by simp
next
  case (Cons f fs)
  from Cons.prems obtain p ds' where p: "patch f = Some p" and r: "diffEntries fs = Inr ds'"
    and ds: "ds = (''File: '' @ filename f @ ''\<newline>'' @ join ''\<newline>'' (patchLines p)) # ds'"
    by (auto split: option.splits sum.splits)
  from Cons.IH [OF r] show ?case using p ds by auto
qed

lemma patchLines_bounds:
  "length (patchLines p) \<le> 20 \<and> (\<forall>l \<in> set (patchLines p). CHR 0x0A \<notin> set l)"
  using splitOn_free [of _ "CHR 0x0A" p] by (auto simp: patchLines_def dest: in_set_takeD)

text \<open>
  C3. Every review prompt is the fixed text around two sections, each a list of entries
  joined by the separator. The diff section has at most 3 entries, each the name of a
  changed file and at most 20 lines of its patch, none of which holds a line break; the
  files section has at most 3 entries, each the name of a file and at most 2000
  characters of its content.
\<close>

theorem reviewPrompt_bounds:
  assumes "reviewPrompt filesChanged fileContents = Inr pr"
  shows "\<exists>ds cs. pr = prompt (join separator ds) (join separator cs)
           \<and> length ds \<le> 3 \<and> length cs \<le> 3
           \<and> (\<forall>d \<in> set ds. \<exists>f \<in> set filesChanged. \<exists>p ls.
                  patch f = Some p \<and> ls = take 20 (splitOn CHR 0x0A p)
                  \<and> d = ''File: '' @ filename f @ ''\<newline>'' @ join ''\<newline>'' ls
                  \<and> length ls \<le> 20 \<and> (\<forall>l \<in> set ls. CHR 0x0A \<notin> set l))
           \<and> (\<forall>c \<in> set cs. \<exists>f \<in> set fileContents. \<exists>txt.
                  txt = take 2000 (content f)
                  \<and> c = ''// '' @ filename f @ ''\<newline>'' @ txt
                  \<and> length txt \<le> 2000)"
proof -
  from assms obtain ds where de: "diffEntries (take 3 filesChanged) = Inr ds"
    and pr: "pr = prompt (join separator ds) (contentSnippet fileContents)"
    by (auto simp: reviewPrompt_def diffSnippet_def split: sum.splits)
  let ?cs = "contentEntries fileContents"
  note d = diffEntries_Inr [OF de]
  have 1: "pr = prompt (join separator ds) (join separator ?cs)"
    using pr by (simp add: contentSnippet_def)
  have 2: "length ds \<le> 3" using d by simp
  have 3: "length ?cs \<le> 3" by (simp add: contentEntries_def)
  have 4: "\<forall>d \<in> set ds. \<exists>f \<in> set filesChanged. \<exists>p ls.
                  patch f = Some p \<and> ls = take 20 (splitOn CHR 0x0A p)
                  \<and> d = ''File: '' @ filename f @ ''\<newline>'' @ join ''\<newline>'' ls
                  \<and> length ls \<le> 20 \<and> (\<forall>l \<in> set ls. CHR 0x0A \<notin> set l)"
  proof
    fix x assume "x \<in> set ds"
    with d obtain f p where f: "f \<in> set (take 3 filesChanged)" and p: "patch f = Some p"
      and x: "x = ''File: '' @ filename f @ ''\<newline>'' @ join ''\<newline>'' (patchLines p)"
      by blast
    from f have "f \<in> set filesChanged" by (rule in_set_takeD)
    then show "\<exists>f \<in> set filesChanged. \<exists>p ls.
                  patch f = Some p \<and> ls = take 20 (splitOn CHR 0x0A p)
                  \<and> x = ''File: '' @ filename f @ ''\<newline>'' @ join ''\<newline>'' ls
                  \<and> length ls \<le> 20 \<and> (\<forall>l \<in> set ls. CHR 0x0A \<notin> set l)"
      using p x patchLines_bounds [of p] unfolding patchLines_def by blast
  qed
  have 5: "\<forall>c \<in> set ?cs. \<exists>f \<in> set fileContents. \<exists>txt.
                  txt = take 2000 (content f)
                  \<and> c = ''// '' @ filename f @ ''\<newline>'' @ txt
                  \<and> length txt \<le> 2000"
    by (auto simp: contentEntries_def dest: in_set_takeD)
  from 1 2 3 4 5 show ?thesis by blast
qed

text \<open>C3 at four changed files: the prompt holds the first three.\<close>

theorem reviewPrompt_bounds_witness:
  "reviewPrompt (fourFiles (Some ''+p'')) fourContents
     = Inr (prompt
         (join separator
            [''File: a.ts\<newline>@@ -1 +1 @@\<newline>-x\<newline>+y'', ''File: b.png\<newline>+p'', ''File: c.ts\<newline>+z''])
         (join separator
            [''// a.ts\<newline>content of a.ts'', ''// b.png\<newline>content of b.png'',
             ''// c.ts\<newline>content of c.ts'']))
   \<and> (\<exists>ds cs. prompt
         (join separator
            [''File: a.ts\<newline>@@ -1 +1 @@\<newline>-x\<newline>+y'', ''File: b.png\<newline>+p'', ''File: c.ts\<newline>+z''])
         (join separator
            [''// a.ts\<newline>content of a.ts'', ''// b.png\<newline>content of b.png'',
             ''// c.ts\<newline>content of c.ts'']) = prompt (join separator ds) (join separator cs)
        \<and> length ds \<le> 3 \<and> length cs \<le> 3)"
proof -
  have run: "reviewPrompt (fourFiles (Some ''+p'')) fourContents
     = Inr (prompt
         (join separator
            [''File: a.ts\<newline>@@ -1 +1 @@\<newline>-x\<newline>+y'', ''File: b.png\<newline>+p'', ''File: c.ts\<newline>+z''])
         (join separator
            [''// a.ts\<newline>content of a.ts'', ''// b.png\<newline>content of b.png'',
             ''// c.ts\<newline>content of c.ts'']))"
    by (simp add: reviewPrompt_def diffSnippet_def contentSnippet_def contentEntries_def
        patchLines_def fourContents_def fourFiles_def)
  show ?thesis using reviewPrompt_bounds [OF run] run by blast
qed

text \<open>
  The filter \<^verbatim>\<open>a.indexOf(v) === i\<close> keeps each element at its first occurrence, and the
  reviewer list of labels that are no inherited property names is the deduplicated list
  of their table entries.
\<close>

lemma indexOfFrom_ge: "indexOfFrom i xs v = - 1 \<or> int i \<le> indexOfFrom i xs v"
  by (induction xs arbitrary: i) (auto, force)

lemma indexOfFrom_eq_iff:
  "indexOfFrom k a v = int (k + i) \<longleftrightarrow> i < length a \<and> a ! i = v \<and> v \<notin> set (take i a)"
proof (induction a arbitrary: k i)
  case Nil
  show ?case by simp
next
  case (Cons x xs)
  show ?case
  proof (cases "x = v")
    case True
    then show ?thesis by (cases i) auto
  next
    case False
    show ?thesis
    proof (cases i)
      case 0
      have "indexOfFrom (Suc k) xs v \<noteq> int k"
        using indexOfFrom_ge [of "Suc k" xs v] by auto
      then show ?thesis using False 0 by simp
    next
      case (Suc j)
      then show ?thesis using False Cons.IH [of "Suc k" j] by simp
    qed
  qed
qed

lemma filterFirstIndex_aux:
  "map snd (filter (\<lambda>(i, v). indexOfFrom 0 (pre @ xs) v = int i) (enumerate (length pre) xs))
     = firstOccurrences (filter (\<lambda>y. y \<notin> set pre) xs)"
proof (induction xs arbitrary: pre)
  case Nil
  show ?case by simp
next
  case (Cons x xs)
  have hd: "indexOfFrom 0 (pre @ x # xs) x = int (length pre) \<longleftrightarrow> x \<notin> set pre"
    using indexOfFrom_eq_iff [of 0 "pre @ x # xs" x "length pre"] by simp
  have tl: "map snd (filter (\<lambda>(i, v). indexOfFrom 0 (pre @ x # xs) v = int i)
                       (enumerate (Suc (length pre)) xs))
              = firstOccurrences (filter (\<lambda>y. y \<notin> set (pre @ [x])) xs)"
    using Cons.IH [of "pre @ [x]"] by simp
  show ?case
  proof (cases "x \<in> set pre")
    case True
    then have "filter (\<lambda>y. y \<notin> set (pre @ [x])) xs = filter (\<lambda>y. y \<notin> set pre) xs"
      by (intro filter_cong) auto
    then show ?thesis using True hd tl by simp
  next
    case False
    have "filter (\<lambda>y. y \<notin> set (pre @ [x])) xs
            = filter (\<lambda>y. y \<noteq> x) (filter (\<lambda>y. y \<notin> set pre) xs)"
      by (simp add: conj_commute)
    then show ?thesis using False hd tl by simp
  qed
qed

lemma filterFirstIndex_firstOccurrences: "filterFirstIndex a = firstOccurrences a"
  using filterFirstIndex_aux [of "[]" a] by (simp add: filterFirstIndex_def indexOf_def)

lemma firstOccurrences_map_inj:
  "inj f \<Longrightarrow> firstOccurrences (map f xs) = map f (firstOccurrences xs)"
proof (induction xs rule: firstOccurrences.induct)
  case 1
  show ?case by simp
next
  case (2 x xs)
  have "filter (\<lambda>y. y \<noteq> f x) (map f xs) = map f (filter (\<lambda>y. y \<noteq> x) xs)"
    using "2.prems" by (simp add: filter_map comp_def inj_eq)
  then show ?case using 2 by simp
qed

lemma firstOccurrences_distinct_set:
  "distinct (firstOccurrences xs) \<and> set (firstOccurrences xs) = set xs"
  by (induction xs rule: firstOccurrences.induct) auto

lemma reviewersFor_table:
  "l \<notin> set objectPrototypeKeys \<Longrightarrow> reviewersFor l = map Login (tableEntries l)"
  by (simp add: reviewersFor_def tableEntries_def split: option.splits)

lemma reviewers_table:
  assumes "\<forall>l \<in> set labels. l \<notin> set objectPrototypeKeys"
  shows "reviewers labels = map Login (firstOccurrences (concat (map tableEntries labels)))"
proof -
  have "concat (map reviewersFor labels) = map Login (concat (map tableEntries labels))"
    using assms by (induction labels) (simp_all add: reviewersFor_table)
  moreover have "inj Login" by (simp add: inj_def)
  ultimately show ?thesis
    by (simp add: reviewers_def filterFirstIndex_firstOccurrences firstOccurrences_map_inj)
qed

text \<open>The reviewer request is sent exactly when the reviewer list is not empty.\<close>

lemma requestReviews_trace:
  "trace (snd (requestReviews C p labels s))
     = trace s @ (if reviewers labels = [] then []
                  else [RequestReviewers (repo_owner p) (repo_name p) (pr_number p)
                          (reviewers labels)])"
  by (simp add: requestReviews_def requestReviewers_def perform_def ret_def split: prod.splits)

text \<open>
  C4 says that a label absent from the table contributes nothing and that the request is
  sent only for a non-empty reviewer set. The label \<^verbatim>\<open>constructor\<close> is not written in
  the table, so the union of the table entries is empty; the lookup
  \<^verbatim>\<open>labelToReviewers["constructor"]\<close> still finds the inherited member, the reviewer
  list has one element that is no reviewer name, and the request is sent with it.
\<close>

theorem reviewers_inherited_key:
  "concat (map tableEntries [''constructor'']) = []
   \<and> reviewers [''constructor''] = [Inherited ''constructor'']
   \<and> trace (snd (requestReviews (sim simDefault) (openedPayload None) [''constructor''] (start [])))
       = [RequestReviewers ''octo'' ''demo'' 7 [Inherited ''constructor'']]"
  by (simp add: tableEntries_def reviewers_def reviewersFor_def labelToReviewers_def
      objectPrototypeKeys_def filterFirstIndex_def indexOf_def enumerate_eq_zip
      requestReviews_def requestReviewers_def perform_def sim_eval)

text \<open>
  The slash commands. The branch conditions are \<^verbatim>\<open>startsWith\<close> tests, so the first
  occurrence that \<^verbatim>\<open>replace\<close> removes is the prefix itself.
\<close>

lemma replaceFirst_prefix: "prefix pat s \<Longrightarrow> replaceFirst pat [] s = drop (length pat) s"
  by (cases s) auto

lemma parseCommand_prefix:
  "parseCommand c =
     (if prefix ''/summarize'' c then Summarize
      else if prefix ''/review'' c then Review
      else if prefix ''/labels'' c then Labels (splitWs (trim (drop 7 c)))
      else if prefix ''/assign'' c then Assign (splitWs (trim (drop 7 c)))
      else Unrecognized)"
  by (simp add: parseCommand_def replaceFirst_prefix eval_nat_numeral)

lemma prefix_takeWhile:
  assumes "\<forall>ch \<in> set k. P ch"
  shows "prefix k xs \<longleftrightarrow> prefix k (takeWhile P xs)"
proof
  assume "prefix k xs"
  then obtain z where "xs = k @ z" by (auto simp: prefix_def)
  then have "takeWhile P xs = k @ takeWhile P z" using assms by (simp add: takeWhile_append2)
  then show "prefix k (takeWhile P xs)" by simp
next
  assume "prefix k (takeWhile P xs)"
  moreover have "prefix (takeWhile P xs) xs"
    by (metis prefixI takeWhile_dropWhile_id)
  ultimately show "prefix k xs" by (rule prefix_order.trans)
qed

lemma splitWs_hd:
  assumes "splitWs c = t # rest"
  shows "t = takeWhile (\<lambda>ch. \<not> isWhiteSpace ch) c"
  using assms by (subst (asm) splitWs.simps) (auto split: if_splits)

lemma splitWs_tl:
  assumes "splitWs c = t # rest"
  shows "rest = (if dropWhile (\<lambda>ch. \<not> isWhiteSpace ch) c = [] then []
                 else splitWs (dropWhile isWhiteSpace (dropWhile (\<lambda>ch. \<not> isWhiteSpace ch) c)))"
  using assms by (subst (asm) splitWs.simps) (auto split: if_splits)

lemma splitWs_nonempty: "splitWs c \<noteq> []"
  by (subst splitWs.simps) simp

lemma dropWhile_keep: "xs \<noteq> [] \<Longrightarrow> \<not> P (hd xs) \<Longrightarrow> dropWhile P xs = xs"
  by (cases xs) simp_all

lemma trim_dropWhile:
  assumes "ys = dropWhile isWhiteSpace xs" and "ys \<noteq> []" and "\<not> isWhiteSpace (last ys)"
  shows "trim xs = ys"
proof -
  have "rev ys \<noteq> []" using assms(2) by simp
  moreover have "\<not> isWhiteSpace (hd (rev ys))" using assms(2,3) by (simp add: hd_rev)
  ultimately have "dropWhile isWhiteSpace (rev ys) = rev ys" by (rule dropWhile_keep)
  then show ?thesis unfolding trim_def assms(1) [symmetric] by simp
qed

text \<open>The arguments of a command whose first token is exactly seven characters long.\<close>

lemma splitWs_arguments:
  assumes sp: "splitWs (trim b) = t # rest" and len: "length t = 7"
  shows "splitWs (trim (drop 7 (trim b))) = (if rest = [] then [[]] else rest)"
proof -
  let ?c = "trim b"
  let ?nw = "\<lambda>ch. \<not> isWhiteSpace ch"
  let ?r = "dropWhile ?nw ?c"
  have t: "t = takeWhile ?nw ?c" using sp by (rule splitWs_hd)
  have c: "?c = t @ ?r" using t by simp
  have r: "drop 7 ?c = ?r" using len by (subst c) simp
  show ?thesis
  proof (cases "?r = []")
    case True
    then have "rest = []" using splitWs_tl [OF sp] by simp
    moreover have "splitWs (trim []) = [[]]" by (simp add: trim_def splitWs.simps)
    ultimately show ?thesis using r True by simp
  next
    case False
    let ?r' = "dropWhile isWhiteSpace ?r"
    have rest: "rest = splitWs ?r'" using splitWs_tl [OF sp] False by auto
    have cne: "?c \<noteq> []" using c False by auto
    then have lastc: "\<not> isWhiteSpace (last ?c)" by (rule trim_last)
    have "last ?r = last ?c" using c False by (metis last_appendR)
    then have lastr: "\<not> isWhiteSpace (last ?r)" using lastc by simp
    have r': "?r' \<noteq> []"
    proof
      assume "?r' = []"
      then have "\<forall>x \<in> set ?r. isWhiteSpace x" by (simp only: dropWhile_eq_Nil_conv)
      moreover have "last ?r \<in> set ?r" using False by (rule last_in_set)
      ultimately show False using lastr by blast
    qed
    have "last ?r' = last ?r"
      using r' by (metis last_appendR takeWhile_dropWhile_id)
    then have "\<not> isWhiteSpace (last ?r')" using lastr by simp
    then have "trim ?r = ?r'" using r' by (intro trim_dropWhile) simp_all
    then have "splitWs (trim (drop 7 ?c)) = rest" unfolding r rest by (rule arg_cong)
    moreover have "rest \<noteq> []" unfolding rest by (rule splitWs_nonempty)
    ultimately show ?thesis by simp
  qed
qed

lemma command_words_no_space:
  "\<forall>ch \<in> set ''/summarize''. \<not> isWhiteSpace ch"
  "\<forall>ch \<in> set ''/review''. \<not> isWhiteSpace ch"
  "\<forall>ch \<in> set ''/labels''. \<not> isWhiteSpace ch"
  "\<forall>ch \<in> set ''/assign''. \<not> isWhiteSpace ch"
  by (simp_all add: isWhiteSpace_def)

lemma prefix_first_token:
  assumes "splitWs c = t # rest" and "\<forall>ch \<in> set k. \<not> isWhiteSpace ch"
  shows "prefix k c \<longleftrightarrow> prefix k t"
  using prefix_takeWhile [OF assms(2), of c] splitWs_hd [OF assms(1)] by simp

text \<open>
  C7, as amended. Let \<open>t\<close> be the first white-space-delimited token of the trimmed comment
  body and \<open>rest\<close> the tokens after it. The command is decided by how \<open>t\<close> starts, tested
  in the order \<^verbatim>\<open>/summarize\<close>, \<^verbatim>\<open>/review\<close>, \<^verbatim>\<open>/labels\<close>, \<^verbatim>\<open>/assign\<close>; the arguments of
  Labels and Assign are the body without its first seven characters, trimmed and split at
  white space. When \<open>t\<close> is exactly one of the four words the command is the one the
  claim names, with the arguments \<open>rest\<close>, or the single empty string when \<open>rest\<close> is
  empty. A body whose first token starts with none of the four words is Unrecognized, and
  an Unrecognized command makes no request and writes no log line.
\<close>

theorem parseCommand_first_token:
  assumes sp: "splitWs (trim b) = t # rest"
  shows "parseCommand (trim b) =
           (if prefix ''/summarize'' t then Summarize
            else if prefix ''/review'' t then Review
            else if prefix ''/labels'' t then Labels (splitWs (trim (drop 7 (trim b))))
            else if prefix ''/assign'' t then Assign (splitWs (trim (drop 7 (trim b))))
            else Unrecognized)
         \<and> (t = ''/summarize'' \<longrightarrow> parseCommand (trim b) = Summarize)
         \<and> (t = ''/review'' \<longrightarrow> parseCommand (trim b) = Review)
         \<and> (t = ''/labels'' \<longrightarrow>
               parseCommand (trim b) = Labels (if rest = [] then [[]] else rest))
         \<and> (t = ''/assign'' \<longrightarrow>
               parseCommand (trim b) = Assign (if rest = [] then [[]] else rest))
         \<and> (parseCommand (trim b) = Unrecognized \<longrightarrow>
               execCommand C ow rp n (parseCommand (trim b)) s = (Inr (), s))"
proof -
  note pf = prefix_first_token [OF sp]
  have chain: "parseCommand (trim b) =
           (if prefix ''/summarize'' t then Summarize
            else if prefix ''/review'' t then Review
            else if prefix ''/labels'' t then Labels (splitWs (trim (drop 7 (trim b))))
            else if prefix ''/assign'' t then Assign (splitWs (trim (drop 7 (trim b))))
            else Unrecognized)"
    unfolding parseCommand_prefix
      pf [OF command_words_no_space(1)] pf [OF command_words_no_space(2)]
      pf [OF command_words_no_space(3)] pf [OF command_words_no_space(4)]
    by (rule refl)
  have args: "length t = 7 \<Longrightarrow>
      splitWs (trim (drop 7 (trim b))) = (if rest = [] then [[]] else rest)"
    by (rule splitWs_arguments [OF sp])
  have 1: "t = ''/summarize'' \<longrightarrow> parseCommand (trim b) = Summarize"
    unfolding chain by simp
  have 2: "t = ''/review'' \<longrightarrow> parseCommand (trim b) = Review"
    unfolding chain by simp
  have 3: "t = ''/labels'' \<longrightarrow>
             parseCommand (trim b) = Labels (if rest = [] then [[]] else rest)"
  proof
    assume t: "t = ''/labels''"
    then have "length t = 7" by simp
    from args [OF this] show "parseCommand (trim b) = Labels (if rest = [] then [[]] else rest)"
      unfolding chain t by simp
  qed
  have 4: "t = ''/assign'' \<longrightarrow>
             parseCommand (trim b) = Assign (if rest = [] then [[]] else rest)"
  proof
    assume t: "t = ''/assign''"
    then have "length t = 7" by simp
    from args [OF this] show "parseCommand (trim b) = Assign (if rest = [] then [[]] else rest)"
      unfolding chain t by simp
  qed
  have 5: "parseCommand (trim b) = Unrecognized \<longrightarrow>
             execCommand C ow rp n (parseCommand (trim b)) s = (Inr (), s)"
    by (simp add: ret_def)
  from chain 1 2 3 4 5 show ?thesis by blast
qed

text \<open>C7 as amended at five comments, one for each command and one that is no command.\<close>

theorem parseCommand_first_token_witness:
  "splitWs (trim '' /labels bug  docs '') = [''/labels'', ''bug'', ''docs'']
   \<and> parseCommand (trim '' /labels bug  docs '') = Labels [''bug'', ''docs'']
   \<and> splitWs (trim ''/assign'') = [''/assign'']
   \<and> parseCommand (trim ''/assign'') = Assign [[]]
   \<and> splitWs (trim ''/review please'') = [''/review'', ''please'']
   \<and> parseCommand (trim ''/review please'') = Review
   \<and> splitWs (trim ''/summarize'') = [''/summarize'']
   \<and> parseCommand (trim ''/summarize'') = Summarize
   \<and> splitWs (trim ''looks good'') = [''looks'', ''good'']
   \<and> parseCommand (trim ''looks good'') = Unrecognized
   \<and> execCommand (sim simDefault) ''octo'' ''demo'' 7 (parseCommand (trim ''looks good'')) (start [])
       = (Inr (), start [])"
proof -
  have a: "splitWs (trim '' /labels bug  docs '') = [''/labels'', ''bug'', ''docs'']"
    and b: "splitWs (trim ''/assign'') = [''/assign'']"
    and c: "splitWs (trim ''/review please'') = [''/review'', ''please'']"
    and d: "splitWs (trim ''/summarize'') = [''/summarize'']"
    and e: "splitWs (trim ''looks good'') = [''looks'', ''good'']"
    by (simp_all add: trim_def isWhiteSpace_def splitWs.simps)
  note la0 = parseCommand_first_token [OF a, of "sim simDefault" "''octo''" "''demo''" 7 "start []"]
  note as0 = parseCommand_first_token [OF b, of "sim simDefault" "''octo''" "''demo''" 7 "start []"]
  note re0 = parseCommand_first_token [OF c, of "sim simDefault" "''octo''" "''demo''" 7 "start []"]
  note su0 = parseCommand_first_token [OF d, of "sim simDefault" "''octo''" "''demo''" 7 "start []"]
  note lg0 = parseCommand_first_token [OF e, of "sim simDefault" "''octo''" "''demo''" 7 "start []"]
  have la: "parseCommand (trim '' /labels bug  docs '') = Labels [''bug'', ''docs'']"
    using la0 [THEN conjunct2, THEN conjunct2, THEN conjunct2, THEN conjunct1] by simp
  have as: "parseCommand (trim ''/assign'') = Assign [[]]"
    using as0 [THEN conjunct2, THEN conjunct2, THEN conjunct2, THEN conjunct2, THEN conjunct1] by simp
  have re: "parseCommand (trim ''/review please'') = Review"
    using re0 [THEN conjunct2, THEN conjunct2, THEN conjunct1] by simp
  have su: "parseCommand (trim ''/summarize'') = Summarize"
    using su0 [THEN conjunct2, THEN conjunct1] by simp
  have u: "parseCommand (trim ''looks good'') = Unrecognized"
    using lg0 [THEN conjunct1] by simp
  have ex: "execCommand (sim simDefault) ''octo'' ''demo'' 7
      (parseCommand (trim ''looks good'')) (start []) = (Inr (), start [])"
    using lg0 [THEN conjunct2, THEN conjunct2, THEN conjunct2, THEN conjunct2, THEN conjunct2, THEN mp, OF u] .
  show ?thesis by (intro conjI a la b as c re d su e u ex)
qed

text \<open>
  C7 as stated fails: the leading token of \<^verbatim>\<open>/labelsx y\<close> is none of the four words, and
  the comment is handled as a labels command that adds the labels \<^verbatim>\<open>x\<close> and \<^verbatim>\<open>y\<close>.
\<close>

theorem parseCommand_leading_token_counterexample:
  "hd (splitWs (trim ''/labelsx y'')) = ''/labelsx''
   \<and> parseCommand (trim ''/labelsx y'') = Labels [''x'', ''y'']
   \<and> trace (snd (issueCommentHandler (sim simDefault) (commentPayload ''/labelsx y'') (start [])))
       = [AddLabels ''octo'' ''demo'' 7 [''x'', ''y'']]"
  by (simp add: issueCommentHandler_def parseCommand_def trim_def isWhiteSpace_def splitWs.simps
      addLabels_def monad_defs sim_eval)

end
